theory Spec2Isabelle
  imports Main "HOL-Library.Word"
begin

unbundle bit_operations_syntax

section \<open>Data model\<close>

type_synonym byte = "8 word"

text \<open>
  Go's \<open>int\<close> is 32 or 64 bits wide depending on the platform the node is built for.
  The only place where the width matters is the conversion \<open>int(uint32)\<close> in
  \<open>readBuf\<close>: on a 64-bit \<open>int\<close> it is a zero extension, on a 32-bit \<open>int\<close> it
  reinterprets the bits as two's complement.
\<close>

datatype arch = Int32 | Int64

definition goInt :: "arch \<Rightarrow> 32 word \<Rightarrow> int" where
  "goInt a w = (case a of Int32 \<Rightarrow> sint w | Int64 \<Rightarrow> uint w)"

text \<open>
  Modelled from the spec: the message envelope \<open>protobuf.Message\<close> is declared outside
  the two source files; the spec gives it a routing type, a message identifier and an opaque
  payload.
\<close>

record Message =
  RoutingType :: int
  MessageId :: "byte list"
  Payload :: "byte list"

text \<open>Modelled from the spec: \<open>protobuf.Node\<close>, of which the code reads only \<open>Addr\<close>.\<close>

record PNode =
  Id :: "byte list"
  Addr :: string

text \<open>Errors of the source, one constructor for each \<open>errors.New\<close> and \<open>fmt.Errorf\<close>.\<close>

datatype error =
    MiddlewareIsNil
  | UnknownMiddlewareType
  | MessageLengthOverflow int
  | RxGetEOF
  | ReadConnectionError string
  | WriteToConnError string
  | KeepaliveTimeout
  | TxMsgChanFull
  | WaitForReplyTimeout
  | GetNodeError error
  | ParseNodeAddrError string error
  | NodeAddrPortEmpty
  | ParseConnRemoteAddrError string error
  | LocalNodeIsNil
  | ConnIsNil
  | ReplyChanExists
  | External string

datatype panic = SliceBoundsOutOfRange | IndexOutOfRange | NilPointerDereference

datatype task = RxLoop | TxLoop | HandleMsgLoop | ResolveNode

datatype logline =
    StopsBecauseOfError error
  | Stops
  | UnmarshalMsgError
  | RxMsgChanFullDiscarding
  | ReadBufferError error
  | MarshalError

text \<open>
  The effects of a remote node that leave its own fields are recorded, in order, in a trace:
  the calls of \<open>handleMsgBuf\<close>, the goroutines spawned, the log lines, the lifecycle
  transition, closing the stream, and every hook invoked (by its position in its list).
\<close>

datatype event =
    HandleMsgBuf "byte list"
  | Go task
  | Log logline
  | LifeCycleStop
  | ConnClose
  | ReadyHook nat
  | DisconnectedHook nat

text \<open>
  The stream \<open>net.Conn\<close>: what has been written to it, whether it has been closed, and the
  remote address it reports.
\<close>

record Conn =
  written :: "byte list"
  closed :: bool
  remoteAddr :: string

text \<open>
  \<open>RemoteNode\<close>. The embedded \<open>*Node\<close> contributes \<open>StartOnce\<close>, \<open>StopOnce\<close> (the
  done flags of two \<open>sync.Once\<close>), the lifecycle flag read by \<open>IsStopped\<close> and the
  \<open>protobuf.Node\<close> record; the pointer to the local node is passed to the operations
  instead of being stored.
\<close>

record RemoteNode =
  IsOutbound :: bool
  conn :: "Conn option"
  rxBuf_buf :: "byte list"
  rxBuf_len :: int
  rxMsgChan :: "Message list"
  txMsgChan :: "Message list"
  StartOnce :: bool
  StopOnce :: bool
  stopped :: bool
  Node :: "PNode option"
  trace :: "event list"

definition remoteRxMsgChanLen :: nat where "remoteRxMsgChanLen = 23333"
definition remoteTxMsgChanLen :: nat where "remoteTxMsgChanLen = 23333"
definition rxBufLen :: nat where "rxBufLen = 1024 * 16"

text \<open>
  Modelled from the spec: the constant \<open>msgLenBytes\<close> is declared outside the two source
  files; the wire format has a 4-byte length prefix.
\<close>

definition msgLenBytes :: int where "msgLenBytes = 4"

section \<open>The hook registry (middleware.go)\<close>

record ('ln, 'rn) middlewareStore =
  localNodeWillStart :: "('ln \<Rightarrow> bool) list"
  localNodeStarted :: "('ln \<Rightarrow> bool) list"
  remoteNodeConnected :: "('rn \<Rightarrow> bool) list"
  remoteNodeReady :: "('rn \<Rightarrow> bool) list"
  remoteNodeDisconnected :: "('rn \<Rightarrow> bool) list"

definition newMiddlewareStore :: "('ln, 'rn) middlewareStore" where
  "newMiddlewareStore =
     \<lparr>localNodeWillStart = [], localNodeStarted = [], remoteNodeConnected = [],
      remoteNodeReady = [], remoteNodeDisconnected = []\<rparr>"

text \<open>
  The dynamic value handed to \<open>ApplyMiddleware\<close> as \<open>interface{}\<close>: a value of one of
  the five named function types (\<open>None\<close> is the nil function of that type), or anything
  else, the untyped nil included.
\<close>

datatype ('ln, 'rn) iface =
    LocalNodeWillStart "('ln \<Rightarrow> bool) option"
  | LocalNodeStarted "('ln \<Rightarrow> bool) option"
  | RemoteNodeConnected "('rn \<Rightarrow> bool) option"
  | RemoteNodeReady "('rn \<Rightarrow> bool) option"
  | RemoteNodeDisconnected "('rn \<Rightarrow> bool) option"
  | OtherValue

fun ApplyMiddleware ::
  "('ln, 'rn) middlewareStore \<Rightarrow> ('ln, 'rn) iface \<Rightarrow> ('ln, 'rn) middlewareStore \<times> error option" where
  "ApplyMiddleware store (LocalNodeWillStart f) =
     (case f of None \<Rightarrow> (store, Some MiddlewareIsNil)
      | Some g \<Rightarrow> (store\<lparr>localNodeWillStart := localNodeWillStart store @ [g]\<rparr>, None))"
| "ApplyMiddleware store (LocalNodeStarted f) =
     (case f of None \<Rightarrow> (store, Some MiddlewareIsNil)
      | Some g \<Rightarrow> (store\<lparr>localNodeStarted := localNodeStarted store @ [g]\<rparr>, None))"
| "ApplyMiddleware store (RemoteNodeConnected f) =
     (case f of None \<Rightarrow> (store, Some MiddlewareIsNil)
      | Some g \<Rightarrow> (store\<lparr>remoteNodeConnected := remoteNodeConnected store @ [g]\<rparr>, None))"
| "ApplyMiddleware store (RemoteNodeReady f) =
     (case f of None \<Rightarrow> (store, Some MiddlewareIsNil)
      | Some g \<Rightarrow> (store\<lparr>remoteNodeReady := remoteNodeReady store @ [g]\<rparr>, None))"
| "ApplyMiddleware store (RemoteNodeDisconnected f) =
     (case f of None \<Rightarrow> (store, Some MiddlewareIsNil)
      | Some g \<Rightarrow> (store\<lparr>remoteNodeDisconnected := remoteNodeDisconnected store @ [g]\<rparr>, None))"
| "ApplyMiddleware store OtherValue = (store, Some UnknownMiddlewareType)"

text \<open>
  The loop \<open>for _, f := range fs { if !f(rn) { break } }\<close> of \<open>Start\<close> and \<open>Stop\<close>:
  the positions of the hooks it invokes, in the order of the calls, counted from \<open>i\<close>.
\<close>

fun rangeHooks :: "('rn \<Rightarrow> bool) list \<Rightarrow> 'rn \<Rightarrow> nat \<Rightarrow> nat list" where
  "rangeHooks [] rn i = []"
| "rangeHooks (f # fs) rn i = i # (if f rn then rangeHooks fs rn (Suc i) else [])"

section \<open>The owning local node\<close>

text \<open>
  Modelled from the spec: \<open>LocalNode\<close> is declared outside the two source files. The code
  reads its hook registry and calls \<open>AllocReplyChan\<close>, which by the spec allocates a one-shot
  reply-delivery slot given a message identifier and fails if one is already outstanding for
  that identifier. The registry of outstanding slots is the set of their identifiers, and the
  slot returned is named by its identifier.
\<close>

record 'ln LocalNode =
  middlewareStore :: "('ln, RemoteNode) middlewareStore"
  replyChans :: "byte list set"

definition AllocReplyChan ::
  "'ln LocalNode \<Rightarrow> byte list \<Rightarrow> error + byte list \<times> 'ln LocalNode" where
  "AllocReplyChan ln msgID =
     (if msgID \<in> replyChans ln then Inl ReplyChanExists
      else Inr (msgID, ln\<lparr>replyChans := insert msgID (replyChans ln)\<rparr>))"

section \<open>Lifecycle (remotenode.go)\<close>

text \<open>
  \<open>NewRemoteNode\<close>; \<open>nn\<close> is the error of \<open>NewNode(nil, "")\<close>, a function outside the
  two source files.
\<close>

definition NewRemoteNode ::
  "'ln LocalNode option \<Rightarrow> Conn option \<Rightarrow> bool \<Rightarrow> error option \<Rightarrow> error + RemoteNode" where
  "NewRemoteNode localNode c isOutbound nn =
     (if localNode = None then Inl LocalNodeIsNil
      else if c = None then Inl ConnIsNil
      else case nn of
        Some err \<Rightarrow> Inl err
      | None \<Rightarrow>
          Inr \<lparr>IsOutbound = isOutbound, conn = c, rxBuf_buf = [], rxBuf_len = 0,
               rxMsgChan = [], txMsgChan = [], StartOnce = False, StopOnce = False,
               stopped = False, Node = None, trace = []\<rparr>)"

text \<open>
  Modelled from the spec: the \<open>LifeCycle\<close> type embedded in \<open>Node\<close> is declared outside
  the two source files. Its state is \<open>created \<rightarrow> running \<rightarrow> stopped\<close> with \<open>stopped\<close>
  terminal; \<open>LifeCycle.Stop\<close> sets the shared stopped signal and \<open>IsStopped\<close> reads it.
\<close>

definition IsStopped :: "RemoteNode \<Rightarrow> bool" where
  "IsStopped rn = stopped rn"

definition LifeCycle_Stop :: "RemoteNode \<Rightarrow> RemoteNode" where
  "LifeCycle_Stop rn = rn\<lparr>stopped := True, trace := trace rn @ [LifeCycleStop]\<rparr>"

definition emit :: "event list \<Rightarrow> RemoteNode \<Rightarrow> RemoteNode" where
  "emit es rn = rn\<lparr>trace := trace rn @ es\<rparr>"

definition conn_Close :: "RemoteNode \<Rightarrow> RemoteNode" where
  "conn_Close rn =
     (case conn rn of None \<Rightarrow> rn
      | Some c \<Rightarrow> emit [ConnClose] (rn\<lparr>conn := Some (c\<lparr>closed := True\<rparr>)\<rparr>))"

text \<open>
  The function handed to \<open>StopOnce.Do\<close> (lines 131 to 147): the log line, the lifecycle
  transition and closing the stream, then the loop over the peer-disconnected hooks.
\<close>

definition teardown :: "error option \<Rightarrow> RemoteNode \<Rightarrow> RemoteNode" where
  "teardown err rn =
     conn_Close (LifeCycle_Stop
       (emit [Log (case err of Some e \<Rightarrow> StopsBecauseOfError e | None \<Rightarrow> Stops)] rn))"

definition disconnectedHooks :: "'ln LocalNode \<Rightarrow> RemoteNode \<Rightarrow> RemoteNode" where
  "disconnectedHooks ln rn =
     emit (map DisconnectedHook
            (rangeHooks (remoteNodeDisconnected (middlewareStore ln)) rn 0)) rn"

definition stopBody :: "'ln LocalNode \<Rightarrow> error option \<Rightarrow> RemoteNode \<Rightarrow> RemoteNode" where
  "stopBody ln err rn = disconnectedHooks ln (teardown err rn)"

text \<open>
  \<open>sync.Once.Do\<close>: the function runs when the done flag is clear, and the flag is set when
  it returns.
\<close>

definition Stop :: "'ln LocalNode \<Rightarrow> error option \<Rightarrow> RemoteNode \<Rightarrow> RemoteNode" where
  "Stop ln err rn =
     (if StopOnce rn then rn else (stopBody ln err rn)\<lparr>StopOnce := True\<rparr>)"

text \<open>The function handed to \<open>StartOnce.Do\<close> (lines 80 to 122) spawns four goroutines.\<close>

definition startBody :: "RemoteNode \<Rightarrow> RemoteNode" where
  "startBody rn =
     (if IsStopped rn then rn
      else emit [Go RxLoop, Go TxLoop, Go HandleMsgLoop, Go ResolveNode] rn)"

definition Start :: "RemoteNode \<Rightarrow> RemoteNode \<times> error option" where
  "Start rn = ((if StartOnce rn then rn else (startBody rn)\<lparr>StartOnce := True\<rparr>), None)"

section \<open>The frame codec (remotenode.go)\<close>

text \<open>\<open>binary.BigEndian.Uint32\<close> reads the first four bytes and panics on a shorter slice.\<close>

definition Uint32 :: "byte list \<Rightarrow> 32 word option" where
  "Uint32 b =
     (if length b < 4 then None
      else Some (ucast (b ! 3) OR push_bit 8 (ucast (b ! 2)) OR push_bit 16 (ucast (b ! 1))
                 OR push_bit 24 (ucast (b ! 0))))"

text \<open>\<open>binary.BigEndian.PutUint32\<close> into a four-byte buffer.\<close>

definition PutUint32 :: "32 word \<Rightarrow> byte list" where
  "PutUint32 v = [ucast (drop_bit 24 v), ucast (drop_bit 16 v), ucast (drop_bit 8 v), ucast v]"

text \<open>
  \<open>handleMsgBuf\<close>: \<open>proto.Unmarshal\<close> is a parameter (\<open>None\<close> is its error); the message
  goes to the inbound queue unless that is full.
\<close>

definition handleMsgBuf :: "(byte list \<Rightarrow> Message option) \<Rightarrow> RemoteNode \<Rightarrow> byte list \<Rightarrow> RemoteNode" where
  "handleMsgBuf unmarshal rn b =
     (let rn1 = emit [HandleMsgBuf b] rn
      in case unmarshal b of
           None \<Rightarrow> emit [Log UnmarshalMsgError] rn1
         | Some msg \<Rightarrow>
             if length (rxMsgChan rn1) < remoteRxMsgChanLen
             then rn1\<lparr>rxMsgChan := rxMsgChan rn1 @ [msg]\<rparr>
             else emit [Log RxMsgChanFullDiscarding] rn1)"

definition resetRxBuf :: "RemoteNode \<Rightarrow> RemoteNode" where
  "resetRxBuf rn = rn\<lparr>rxBuf_buf := [], rxBuf_len := 0\<rparr>"

text \<open>
  Lines 214 to 228 of \<open>readBuf\<close>, the length prefix. The result is a panic, or the node,
  the rest of the input and, when the function returns there, its return value.
\<close>

definition readLen ::
  "arch \<Rightarrow> RemoteNode \<Rightarrow> byte list \<Rightarrow> panic + RemoteNode \<times> byte list \<times> error option option" where
  "readLen a rn b =
     (if rxBuf_len rn = 0 then
        (let len = msgLenBytes - int (length (rxBuf_buf rn)) in
         if len > int (length b) then
           Inr (rn\<lparr>rxBuf_buf := rxBuf_buf rn @ b\<rparr>, b, Some None)
         else if len < 0 then Inl SliceBoundsOutOfRange
         else
           (let rn1 = rn\<lparr>rxBuf_buf := rxBuf_buf rn @ take (nat len) b\<rparr> in
            case Uint32 (rxBuf_buf rn1) of
              None \<Rightarrow> Inl IndexOutOfRange
            | Some w \<Rightarrow>
                (let rn2 = rn1\<lparr>rxBuf_len := goInt a w\<rparr> in
                 if rxBuf_len rn2 < 0
                 then Inr (rn2, b, Some (Some (MessageLengthOverflow (rxBuf_len rn2))))
                 else Inr (rn2, drop (nat len) b, None))))
      else Inr (rn, b, None))"

function readBuf ::
  "arch \<Rightarrow> (byte list \<Rightarrow> Message option) \<Rightarrow> RemoteNode \<Rightarrow> byte list
     \<Rightarrow> panic + RemoteNode \<times> error option" where
  "readBuf a unmarshal rn b =
     (if length b = 0 then Inr (rn, None)
      else case readLen a rn b of
        Inl p \<Rightarrow> Inl p
      | Inr (rn1, b1, Some r) \<Rightarrow> Inr (rn1, r)
      | Inr (rn1, b1, None) \<Rightarrow>
          (let msgLen = rxBuf_len rn1 in
           if int (length b1) = msgLen then
             Inr (resetRxBuf (handleMsgBuf unmarshal rn1 b1), None)
           else if int (length b1) < msgLen then
             Inr (rn1\<lparr>rxBuf_buf := rxBuf_buf rn1 @ b1, rxBuf_len := msgLen - int (length b1)\<rparr>, None)
           else if msgLen < 0 then Inl SliceBoundsOutOfRange
           else readBuf a unmarshal
                  (resetRxBuf (handleMsgBuf unmarshal rn1 (take (nat msgLen) b1)))
                  (drop (nat msgLen) b1)))"
  by pat_completeness auto
termination
proof (relation "measure (\<lambda>(a, u, rn, b).
          2 * length b + (if rxBuf_len rn = 0 \<and> 4 \<le> length (rxBuf_buf rn) then 1 else 0))",
       goal_cases)
  case 1
  show ?case by simp
next
  case (2 a unmarshal rn b x2 rn1 y b1 r msgLen)
  then have rl: "readLen a rn b = Inr (rn1, b1, None)" by simp
  have le: "length b1 \<le> length b"
    using rl by (auto simp: readLen_def Let_def split: if_splits option.splits)
  have less: "length b1 < length b" if "rxBuf_len rn = 0" "length (rxBuf_buf rn) < 4"
    using rl that
    by (auto simp: readLen_def Let_def msgLenBytes_def split: if_splits option.splits)
  have same: "rxBuf_len rn1 = rxBuf_len rn \<and> b1 = b" if "rxBuf_len rn \<noteq> 0"
    using rl that by (simp add: readLen_def)
  have reset: "rxBuf_len (resetRxBuf s) = 0 \<and> rxBuf_buf (resetRxBuf s) = []" for s
    by (simp add: resetRxBuf_def)
  show ?case
  proof (cases "rxBuf_len rn = 0")
    case True
    show ?thesis
    proof (cases "length (rxBuf_buf rn) < 4")
      case short: True
      with True less have "length b1 < length b" by simp
      then show ?thesis using True short by (simp add: reset)
    next
      case False
      with le show ?thesis using True by (simp add: reset)
    qed
  next
    case False
    with same have "rxBuf_len rn1 = rxBuf_len rn" "b1 = b" by simp_all
    with 2 False have "0 < msgLen" "0 < length b" by auto
    then have "length b - nat msgLen < length b" by simp
    then show ?thesis using \<open>b1 = b\<close> False by (simp add: reset)
  qed
qed

text \<open>
  \<open>rx\<close>, run on the results of the successive \<open>conn.Read\<close> calls: the bytes read (at most
  \<open>rxBufLen - 1\<close> of them) and the error. The loop ends when the node is stopped; when the
  results are used up it is blocked in \<open>Read\<close>. A panic ends the process.
\<close>

datatype ioerr = EOF | IOError string

fun rx ::
  "arch \<Rightarrow> (byte list \<Rightarrow> Message option) \<Rightarrow> 'ln LocalNode \<Rightarrow> RemoteNode
     \<Rightarrow> (byte list \<times> ioerr option) list \<Rightarrow> panic + RemoteNode" where
  "rx a unmarshal ln rn [] = Inr rn"
| "rx a unmarshal ln rn ((b, err) # reads) =
     (if IsStopped rn then Inr rn
      else if conn rn = None then Inl NilPointerDereference
      else case err of
        None \<Rightarrow>
          (case readBuf a unmarshal rn b of
             Inl p \<Rightarrow> Inl p
           | Inr (rn1, None) \<Rightarrow> rx a unmarshal ln rn1 reads
           | Inr (rn1, Some e) \<Rightarrow> rx a unmarshal ln (emit [Log (ReadBufferError e)] rn1) reads)
      | Some EOF \<Rightarrow> rx a unmarshal ln (Stop ln (Some RxGetEOF) rn) reads
      | Some (IOError s) \<Rightarrow> rx a unmarshal ln (Stop ln (Some (ReadConnectionError s)) rn) reads)"

text \<open>The buffers handed to \<open>handleMsgBuf\<close>, in the order of the calls.\<close>

fun handled :: "event list \<Rightarrow> byte list list" where
  "handled [] = []"
| "handled (HandleMsgBuf b # es) = b # handled es"
| "handled (e # es) = handled es"

text \<open>A frame as \<open>tx\<close> writes it: the length of the body in four bytes, then the body.\<close>

definition frame :: "byte list \<Rightarrow> byte list" where
  "frame body = PutUint32 (word_of_nat (length body)) @ body"

section \<open>Sending (remotenode.go)\<close>

text \<open>
  \<open>SendMessage\<close>: the \<open>select\<close> with a \<open>default\<close> sends when the queue has room and
  otherwise returns at once.
\<close>

definition SendMessage ::
  "'ln LocalNode \<Rightarrow> RemoteNode \<Rightarrow> Message \<Rightarrow> bool
     \<Rightarrow> ('ln LocalNode \<times> RemoteNode) \<times> (error + byte list option)" where
  "SendMessage ln rn msg hasReply =
     (if length (txMsgChan rn) < remoteTxMsgChanLen then
        (let rn1 = rn\<lparr>txMsgChan := txMsgChan rn @ [msg]\<rparr> in
         if hasReply then
           (case AllocReplyChan ln (MessageId msg) of
              Inl err \<Rightarrow> ((ln, rn1), Inl err)
            | Inr (replyChan, ln1) \<Rightarrow> ((ln1, rn1), Inr (Some replyChan)))
         else ((ln, rn1), Inr None))
      else ((ln, rn), Inl TxMsgChanFull))"

definition SendMessageAsync ::
  "'ln LocalNode \<Rightarrow> RemoteNode \<Rightarrow> Message \<Rightarrow> ('ln LocalNode \<times> RemoteNode) \<times> error option" where
  "SendMessageAsync ln rn msg =
     (case SendMessage ln rn msg False of
        (st, Inl err) \<Rightarrow> (st, Some err)
      | (st, Inr _) \<Rightarrow> (st, None))"

text \<open>
  \<open>SendMessageSync\<close>: \<open>reply\<close> is what the \<open>select\<close> of lines 347 to 352 receives,
  the reply message when one arrives on the reply channel first and \<open>None\<close> when the timer
  of \<open>replyTimeout\<close> fires first.
\<close>

definition SendMessageSync ::
  "'ln LocalNode \<Rightarrow> RemoteNode \<Rightarrow> Message \<Rightarrow> 'rm option
     \<Rightarrow> ('ln LocalNode \<times> RemoteNode) \<times> (error + 'rm)" where
  "SendMessageSync ln rn msg reply =
     (case SendMessage ln rn msg True of
        (st, Inl err) \<Rightarrow> (st, Inl err)
      | (st, Inr replyChan) \<Rightarrow>
          (case reply of
             Some replyMsg \<Rightarrow> (st, Inr replyMsg)
           | None \<Rightarrow> (st, Inl WaitForReplyTimeout)))"

text \<open>
  \<open>GetNode\<close>: \<open>newMsg\<close> is the result of \<open>NewGetNodeMessage\<close> and \<open>decode\<close> is
  \<open>proto.Unmarshal\<close> of the reply followed by reading \<open>replyBody.Node\<close>, a pointer that
  is nil when the reply carries no node.
\<close>

definition GetNode ::
  "'ln LocalNode \<Rightarrow> RemoteNode \<Rightarrow> error + Message \<Rightarrow> 'rm option \<Rightarrow> ('rm \<Rightarrow> error + PNode option)
     \<Rightarrow> ('ln LocalNode \<times> RemoteNode) \<times> (error + PNode option)" where
  "GetNode ln rn newMsg reply decode =
     (case newMsg of
        Inl err \<Rightarrow> ((ln, rn), Inl err)
      | Inr msg \<Rightarrow>
          (case SendMessageSync ln rn msg reply of
             (st, Inl err) \<Rightarrow> (st, Inl err)
           | (st, Inr r) \<Rightarrow> (st, decode r)))"

text \<open>The loop over the peer-ready hooks at the end of the goroutine of \<open>Start\<close>.\<close>

definition readyHooks :: "'ln LocalNode \<Rightarrow> RemoteNode \<Rightarrow> RemoteNode" where
  "readyHooks ln rn =
     emit (map ReadyHook (rangeHooks (remoteNodeReady (middlewareStore ln)) rn 0)) rn"

text \<open>
  The goroutine of lines 88 to 122, which resolves the address of the peer.
  \<open>net.SplitHostPort\<close> and \<open>net.JoinHostPort\<close> are parameters.
\<close>

definition resolveNode ::
  "(string \<Rightarrow> error + string \<times> string) \<Rightarrow> (string \<Rightarrow> string \<Rightarrow> string)
     \<Rightarrow> error + Message \<Rightarrow> 'rm option \<Rightarrow> ('rm \<Rightarrow> error + PNode option)
     \<Rightarrow> 'ln LocalNode \<Rightarrow> RemoteNode \<Rightarrow> panic + 'ln LocalNode \<times> RemoteNode" where
  "resolveNode splitHostPort joinHostPort newMsg reply decode ln rn =
     (case GetNode ln rn newMsg reply decode of
        ((ln1, rn1), Inl err) \<Rightarrow> Inr (ln1, Stop ln1 (Some (GetNodeError err)) rn1)
      | ((ln1, rn1), Inr None) \<Rightarrow> Inl NilPointerDereference
      | ((ln1, rn1), Inr (Some n)) \<Rightarrow>
          (case splitHostPort (Addr n) of
             Inl err \<Rightarrow> Inr (ln1, Stop ln1 (Some (ParseNodeAddrError (Addr n) err)) rn1)
           | Inr (host, port) \<Rightarrow>
               if port = [] then Inr (ln1, Stop ln1 (Some NodeAddrPortEmpty) rn1)
               else if host = [] then
                 (case conn rn1 of
                    None \<Rightarrow> Inl NilPointerDereference
                  | Some c \<Rightarrow>
                      (case splitHostPort (remoteAddr c) of
                         Inl err \<Rightarrow>
                           Inr (ln1, Stop ln1 (Some (ParseConnRemoteAddrError (remoteAddr c) err)) rn1)
                       | Inr (host', _) \<Rightarrow>
                           Inr (ln1, readyHooks ln1
                                  (rn1\<lparr>Node := Some (n\<lparr>Addr := joinHostPort host' port\<rparr>)\<rparr>))))
               else Inr (ln1, readyHooks ln1 (rn1\<lparr>Node := Some n\<rparr>))))"

section \<open>The transmit loop (remotenode.go)\<close>

text \<open>\<open>keepAlive\<close>; \<open>ping\<close> is the result of \<open>NewPingMessage\<close>.\<close>

definition keepAlive ::
  "'ln LocalNode \<Rightarrow> RemoteNode \<Rightarrow> error + Message \<Rightarrow> ('ln LocalNode \<times> RemoteNode) \<times> error option" where
  "keepAlive ln rn ping =
     (case ping of
        Inl err \<Rightarrow> ((ln, rn), Some err)
      | Inr msg \<Rightarrow> SendMessageAsync ln rn msg)"

text \<open>
  \<open>conn.Write\<close> with its error as an input: a successful write appends the bytes to the
  stream.
\<close>

definition conn_Write :: "RemoteNode \<Rightarrow> byte list \<Rightarrow> string option \<Rightarrow> RemoteNode" where
  "conn_Write rn b err =
     (case err of
        Some e \<Rightarrow> rn
      | None \<Rightarrow> rn\<lparr>conn := map_option (\<lambda>c. c\<lparr>written := written c @ b\<rparr>) (conn rn)\<rparr>)"

text \<open>
  What the \<open>select\<close> of \<open>tx\<close> chooses in one iteration: a message from the outbound
  queue, with the errors of the two writes that follow, or the keep-alive timer, with the
  result of \<open>NewPingMessage\<close>.
\<close>

datatype txSelect =
    RecvTxMsg "string option" "string option"
  | KeepAliveTimer "error + Message"

text \<open>
  \<open>tx\<close>, run on the choices of its successive iterations; \<open>proto.Marshal\<close> is a
  parameter. The loop ends when the node is stopped; it is blocked when the choices are used
  up or the queue has nothing to receive.
\<close>

fun tx ::
  "(Message \<Rightarrow> byte list option) \<Rightarrow> 'ln LocalNode \<Rightarrow> RemoteNode \<Rightarrow> txSelect list
     \<Rightarrow> panic + 'ln LocalNode \<times> RemoteNode" where
  "tx marshal ln rn [] = Inr (ln, rn)"
| "tx marshal ln rn (RecvTxMsg w1 w2 # evs) =
     (if IsStopped rn then Inr (ln, rn)
      else case txMsgChan rn of
        [] \<Rightarrow> Inr (ln, rn)
      | msg # q \<Rightarrow>
          (let rn1 = rn\<lparr>txMsgChan := q\<rparr> in
           case marshal msg of
             None \<Rightarrow> tx marshal ln (emit [Log MarshalError] rn1) evs
           | Some buf \<Rightarrow>
               if conn rn1 = None then Inl NilPointerDereference
               else
                 (let rn2 = conn_Write rn1 (PutUint32 (word_of_nat (length buf))) w1;
                      rn3 = (case w1 of None \<Rightarrow> rn2
                             | Some e \<Rightarrow> Stop ln (Some (WriteToConnError e)) rn2);
                      rn4 = conn_Write rn3 buf w2;
                      rn5 = (case w2 of None \<Rightarrow> rn4
                             | Some e \<Rightarrow> Stop ln (Some (WriteToConnError e)) rn4)
                  in tx marshal ln rn5 evs)))"
| "tx marshal ln rn (KeepAliveTimer ping # evs) =
     (if IsStopped rn then Inr (ln, rn)
      else case keepAlive ln rn ping of ((ln1, rn1), _) \<Rightarrow> tx marshal ln1 rn1 evs)"

section \<open>Sequences of lifecycle calls\<close>

datatype call = CallStart | CallStop "error option"

fun calls :: "'ln LocalNode \<Rightarrow> RemoteNode \<Rightarrow> call list \<Rightarrow> RemoteNode" where
  "calls ln rn [] = rn"
| "calls ln rn (CallStart # cs) = calls ln (fst (Start rn)) cs"
| "calls ln rn (CallStop err # cs) = calls ln (Stop ln err rn) cs"

text \<open>The goroutines spawned, in order.\<close>

fun spawned :: "event list \<Rightarrow> task list" where
  "spawned [] = []"
| "spawned (Go t # es) = t # spawned es"
| "spawned (e # es) = spawned es"

text \<open>How often an event occurs in a trace.\<close>

definition occurrences :: "event \<Rightarrow> event list \<Rightarrow> nat" where
  "occurrences e es = length (filter (\<lambda>x. x = e) es)"


section \<open>Example configuration\<close>

text \<open>
  A freshly created outbound remote node on an open stream, a local node with three hooks in
  each of the two categories dispatched here (the second of which vetoes) and one outstanding
  reply slot, and a message whose identifier is that of the outstanding slot.
\<close>

definition exampleConn :: Conn where
  "exampleConn = \<lparr>written = [], closed = False, remoteAddr = ''10.0.0.7:30001''\<rparr>"

definition exampleMessage :: Message where
  "exampleMessage = \<lparr>RoutingType = 0, MessageId = [7], Payload = [1, 2]\<rparr>"

definition exampleLocalNode :: "unit LocalNode" where
  "exampleLocalNode =
     \<lparr>middlewareStore =
        newMiddlewareStore
          \<lparr>remoteNodeReady := [\<lambda>rn. True, \<lambda>rn. False, \<lambda>rn. True],
           remoteNodeDisconnected := [\<lambda>rn. True, \<lambda>rn. False, \<lambda>rn. True]\<rparr>,
      replyChans = {[7]}\<rparr>"

definition exampleRemoteNode :: RemoteNode where
  "exampleRemoteNode =
     \<lparr>IsOutbound = True, conn = Some exampleConn, rxBuf_buf = [], rxBuf_len = 0,
      rxMsgChan = [], txMsgChan = [], StartOnce = False, StopOnce = False,
      stopped = False, Node = None, trace = []\<rparr>"

definition exampleFullNode :: RemoteNode where
  "exampleFullNode =
     exampleRemoteNode\<lparr>txMsgChan := replicate remoteTxMsgChanLen exampleMessage\<rparr>"

definition exampleMarshal :: "Message \<Rightarrow> byte list option" where
  "exampleMarshal msg = Some (MessageId msg @ Payload msg)"

declare readBuf.simps [simp del]

section \<open>Properties of the hook registry\<close>

lemma rangeHooks_upt:
  "rangeHooks fs rn i = [i ..< i + min (length fs) (Suc (length (takeWhile (\<lambda>f. f rn) fs)))]"
proof (induction fs arbitrary: i)
  case Nil
  show ?case by simp
next
  case (Cons f fs)
  have step: "[i ..< i + Suc m] = i # [Suc i ..< Suc i + m]" for m
    by (subst upt_rec) simp
  show ?case
  proof (cases "f rn")
    case True
    then have "rangeHooks (f # fs) rn i =
        i # [Suc i ..< Suc i + min (length fs) (Suc (length (takeWhile (\<lambda>f. f rn) fs)))]"
      using Cons[of "Suc i"] by simp
    also have "\<dots> = [i ..< i + Suc (min (length fs) (Suc (length (takeWhile (\<lambda>f. f rn) fs))))]"
      by (rule step[symmetric])
    finally show ?thesis using True by simp
  next
    case False
    then show ?thesis using step[of 0] by simp
  qed
qed

lemma rangeHooks_veto:
  assumes "\<forall>g \<in> set pre. g rn" and "\<not> f rn"
  shows "rangeHooks (pre @ f # post) rn i = [i ..< Suc (i + length pre)]"
proof -
  have "takeWhile (\<lambda>f. f rn) (pre @ f # post) = pre @ takeWhile (\<lambda>f. f rn) (f # post)"
    using assms(1) by (intro takeWhile_append2) blast
  then have "takeWhile (\<lambda>f. f rn) (pre @ f # post) = pre"
    using assms(2) by simp
  then show ?thesis by (simp add: rangeHooks_upt min_def)
qed

text \<open>
  Claim C6. A dispatch of the peer-ready hooks (the goroutine of \<open>Start\<close>) and a dispatch of
  the peer-disconnected hooks (\<open>Stop\<close>) invoke the hooks of that one category in
  registration order, positions \<open>0, 1, \<dots>\<close>, up to and including the first hook that
  returns false and none after it; the lists of the other categories play no part, whatever
  they hold.
\<close>

theorem hooks_in_order_until_veto:
  "readyHooks ln rn =
     emit (map ReadyHook
       [0 ..< min (length (remoteNodeReady (middlewareStore ln)))
                  (Suc (length (takeWhile (\<lambda>f. f rn) (remoteNodeReady (middlewareStore ln)))))]) rn
   \<and> disconnectedHooks ln rn =
     emit (map DisconnectedHook
       [0 ..< min (length (remoteNodeDisconnected (middlewareStore ln)))
                  (Suc (length (takeWhile (\<lambda>f. f rn)
                                 (remoteNodeDisconnected (middlewareStore ln)))))]) rn
   \<and> readyHooks
         (ln\<lparr>middlewareStore := (middlewareStore ln)
               \<lparr>localNodeWillStart := ws, localNodeStarted := ss, remoteNodeConnected := cs,
                remoteNodeDisconnected := ds\<rparr>\<rparr>) rn = readyHooks ln rn
   \<and> disconnectedHooks
         (ln\<lparr>middlewareStore := (middlewareStore ln)
               \<lparr>localNodeWillStart := ws, localNodeStarted := ss, remoteNodeConnected := cs,
                remoteNodeReady := rs\<rparr>\<rparr>) rn = disconnectedHooks ln rn"
  by (simp add: readyHooks_def disconnectedHooks_def rangeHooks_upt)

text \<open>
  Claim C8. \<open>ApplyMiddleware\<close> returns an error exactly for a nil function of one of the
  five named types and for a value of any other type; a non-nil function of one of the five
  types is appended at the end of the list of its type, and the other lists stay as they are.
\<close>

theorem ApplyMiddleware_error_iff:
  "(snd (ApplyMiddleware store v) \<noteq> None) =
     (v = OtherValue \<or> v = LocalNodeWillStart None \<or> v = LocalNodeStarted None
      \<or> v = RemoteNodeConnected None \<or> v = RemoteNodeReady None
      \<or> v = RemoteNodeDisconnected None)
   \<and> ApplyMiddleware store (LocalNodeWillStart (Some f1)) =
       (store\<lparr>localNodeWillStart := localNodeWillStart store @ [f1]\<rparr>, None)
   \<and> ApplyMiddleware store (LocalNodeStarted (Some f1)) =
       (store\<lparr>localNodeStarted := localNodeStarted store @ [f1]\<rparr>, None)
   \<and> ApplyMiddleware store (RemoteNodeConnected (Some f2)) =
       (store\<lparr>remoteNodeConnected := remoteNodeConnected store @ [f2]\<rparr>, None)
   \<and> ApplyMiddleware store (RemoteNodeReady (Some f2)) =
       (store\<lparr>remoteNodeReady := remoteNodeReady store @ [f2]\<rparr>, None)
   \<and> ApplyMiddleware store (RemoteNodeDisconnected (Some f2)) =
       (store\<lparr>remoteNodeDisconnected := remoteNodeDisconnected store @ [f2]\<rparr>, None)"
  by (cases v) (auto split: option.splits)

lemma ApplyMiddleware_error_keeps_store:
  "snd (ApplyMiddleware store v) \<noteq> None \<Longrightarrow> fst (ApplyMiddleware store v) = store"
  by (cases v) (auto split: option.splits)

section \<open>Properties of the lifecycle\<close>

lemma exampleRemoteNode_new:
  "NewRemoteNode (Some exampleLocalNode) (Some exampleConn) True None = Inr exampleRemoteNode"
  by (simp add: NewRemoteNode_def exampleRemoteNode_def)

lemma Stop_done: "StopOnce rn \<Longrightarrow> Stop ln err rn = rn"
  by (simp add: Stop_def)

lemma StopOnce_Stop: "StopOnce (Stop ln err rn)"
  by (simp add: Stop_def)

lemma foldl_Stop_done: "StopOnce rn \<Longrightarrow> foldl (\<lambda>s e. Stop ln e s) rn es = rn"
  by (induction es) (simp_all add: Stop_done)

lemma trace_stopBody:
  "trace (stopBody ln err rn) =
     trace rn @ [Log (case err of Some e \<Rightarrow> StopsBecauseOfError e | None \<Rightarrow> Stops), LifeCycleStop]
       @ (case conn rn of None \<Rightarrow> [] | Some c \<Rightarrow> [ConnClose])
       @ map DisconnectedHook
           (rangeHooks (remoteNodeDisconnected (middlewareStore ln)) (teardown err rn) 0)"
  by (simp add: stopBody_def disconnectedHooks_def teardown_def conn_Close_def emit_def
      LifeCycle_Stop_def split: option.splits)

lemma occurrences_append: "occurrences e (xs @ ys) = occurrences e xs + occurrences e ys"
  by (simp add: occurrences_def)

lemma occurrences_DisconnectedHook:
  "occurrences LifeCycleStop (map DisconnectedHook ns) = 0"
  "occurrences ConnClose (map DisconnectedHook ns) = 0"
  by (induction ns) (simp_all add: occurrences_def)

lemma occurrences_Stop_first:
  assumes "\<not> StopOnce rn"
  shows "occurrences LifeCycleStop (trace (Stop ln err rn)) = Suc (occurrences LifeCycleStop (trace rn))"
    and "occurrences ConnClose (trace (Stop ln err rn)) =
           occurrences ConnClose (trace rn) + (case conn rn of None \<Rightarrow> 0 | Some c \<Rightarrow> 1)"
  using assms
  by (simp_all add: Stop_def trace_stopBody occurrences_append occurrences_DisconnectedHook
      split: option.splits) (simp_all add: occurrences_def)

text \<open>
  Claim C3. On a node whose \<open>StopOnce\<close> has not fired, any number of calls of \<open>Stop\<close>,
  with any causes, leave the node as the first call alone does, which is one run of the
  shutdown body: one log line, one lifecycle transition, one close of the stream (when there
  is a stream) and one dispatch of the peer-disconnected hooks are added to the trace, so the
  lifecycle transition and the close occur once more than before; a call after the first
  changes nothing. Concurrent calls are taken in the order in which the mutex
  of \<open>sync.Once\<close> admits them.
\<close>

theorem Stop_idempotent:
  assumes "\<not> StopOnce rn"
  shows "foldl (\<lambda>s e. Stop ln e s) rn (err # errs) = (stopBody ln err rn)\<lparr>StopOnce := True\<rparr>
    \<and> (\<forall>e. Stop ln e (Stop ln err rn) = Stop ln err rn)
    \<and> trace (foldl (\<lambda>s e. Stop ln e s) rn (err # errs)) =
        trace rn @ [Log (case err of Some e \<Rightarrow> StopsBecauseOfError e | None \<Rightarrow> Stops), LifeCycleStop]
          @ (case conn rn of None \<Rightarrow> [] | Some c \<Rightarrow> [ConnClose])
          @ map DisconnectedHook
              (rangeHooks (remoteNodeDisconnected (middlewareStore ln)) (teardown err rn) 0)
    \<and> occurrences LifeCycleStop (trace (foldl (\<lambda>s e. Stop ln e s) rn (err # errs))) =
        Suc (occurrences LifeCycleStop (trace rn))
    \<and> occurrences ConnClose (trace (foldl (\<lambda>s e. Stop ln e s) rn (err # errs))) =
        occurrences ConnClose (trace rn) + (case conn rn of None \<Rightarrow> 0 | Some c \<Rightarrow> 1)"
proof -
  have first: "Stop ln err rn = (stopBody ln err rn)\<lparr>StopOnce := True\<rparr>"
    using assms by (simp add: Stop_def)
  have all: "foldl (\<lambda>s e. Stop ln e s) rn (err # errs) = Stop ln err rn"
    by (simp add: foldl_Stop_done StopOnce_Stop)
  have again: "\<forall>e. Stop ln e (Stop ln err rn) = Stop ln err rn"
    by (simp add: Stop_done StopOnce_Stop)
  have tr: "trace (Stop ln err rn) =
        trace rn @ [Log (case err of Some e \<Rightarrow> StopsBecauseOfError e | None \<Rightarrow> Stops), LifeCycleStop]
          @ (case conn rn of None \<Rightarrow> [] | Some c \<Rightarrow> [ConnClose])
          @ map DisconnectedHook
              (rangeHooks (remoteNodeDisconnected (middlewareStore ln)) (teardown err rn) 0)"
    unfolding first by (simp add: trace_stopBody)
  show ?thesis
    unfolding all using first again tr occurrences_Stop_first[OF assms, of ln err] by simp
qed

theorem Stop_idempotent_witness:
  "\<not> StopOnce exampleRemoteNode
   \<and> trace (foldl (\<lambda>s e. Stop exampleLocalNode e s) exampleRemoteNode
              [Some RxGetEOF, None, Some KeepaliveTimeout]) =
       [Log (StopsBecauseOfError RxGetEOF), LifeCycleStop, ConnClose,
        DisconnectedHook 0, DisconnectedHook 1]"
proof -
  have fresh: "\<not> StopOnce exampleRemoteNode"
    by (simp add: exampleRemoteNode_def)
  have "trace (foldl (\<lambda>s e. Stop exampleLocalNode e s) exampleRemoteNode
              [Some RxGetEOF, None, Some KeepaliveTimeout]) =
        trace exampleRemoteNode @ [Log (StopsBecauseOfError RxGetEOF), LifeCycleStop]
          @ (case conn exampleRemoteNode of None \<Rightarrow> [] | Some c \<Rightarrow> [ConnClose])
          @ map DisconnectedHook
              (rangeHooks (remoteNodeDisconnected (middlewareStore exampleLocalNode))
                 (teardown (Some RxGetEOF) exampleRemoteNode) 0)"
    using Stop_idempotent[OF fresh, of exampleLocalNode "Some RxGetEOF"
        "[None, Some KeepaliveTimeout]", THEN conjunct2, THEN conjunct2, THEN conjunct1]
    by simp
  also have "\<dots> = [Log (StopsBecauseOfError RxGetEOF), LifeCycleStop, ConnClose,
        DisconnectedHook 0, DisconnectedHook 1]"
    by (simp add: exampleRemoteNode_def exampleLocalNode_def newMiddlewareStore_def)
  finally show ?thesis using fresh by simp
qed

lemma spawned_append: "spawned (xs @ ys) = spawned xs @ spawned ys"
  by (induction xs rule: spawned.induct) simp_all

lemma spawned_DisconnectedHook: "spawned (map DisconnectedHook ns) = []"
  by (induction ns) simp_all

lemma spawned_Stop: "spawned (trace (Stop ln err rn)) = spawned (trace rn)"
  by (simp add: Stop_def trace_stopBody spawned_append spawned_DisconnectedHook
      split: option.splits)

lemma StartOnce_Stop: "StartOnce (Stop ln err rn) = StartOnce rn"
  by (simp add: Stop_def stopBody_def disconnectedHooks_def teardown_def conn_Close_def emit_def
      LifeCycle_Stop_def split: option.splits)

lemma stopped_Stop: "stopped rn \<Longrightarrow> stopped (Stop ln err rn)"
  by (simp add: Stop_def stopBody_def disconnectedHooks_def teardown_def conn_Close_def emit_def
      LifeCycle_Stop_def split: option.splits)

lemma stopped_Stop_first: "\<not> StopOnce rn \<Longrightarrow> stopped (Stop ln err rn)"
  by (simp add: Stop_def stopBody_def disconnectedHooks_def teardown_def conn_Close_def emit_def
      LifeCycle_Stop_def split: option.splits)

lemma Start_noop:
  "StartOnce rn \<or> IsStopped rn \<Longrightarrow> trace (fst (Start rn)) = trace rn"
  by (auto simp: Start_def startBody_def)

lemma Start_fresh:
  "\<not> StartOnce rn \<Longrightarrow> \<not> IsStopped rn \<Longrightarrow>
     trace (fst (Start rn)) = trace rn @ [Go RxLoop, Go TxLoop, Go HandleMsgLoop, Go ResolveNode]"
  by (simp add: Start_def startBody_def emit_def)

lemma StartOnce_Start: "StartOnce (fst (Start rn))"
  by (simp add: Start_def)

lemma calls_no_spawn:
  "StartOnce rn \<or> stopped rn \<Longrightarrow> spawned (trace (calls ln rn cs)) = spawned (trace rn)"
proof (induction cs arbitrary: rn)
  case Nil
  show ?case by simp
next
  case (Cons c cs)
  show ?case
  proof (cases c)
    case CallStart
    have "StartOnce (fst (Start rn)) \<or> stopped (fst (Start rn))"
      by (simp add: StartOnce_Start)
    then have "spawned (trace (calls ln (fst (Start rn)) cs)) = spawned (trace (fst (Start rn)))"
      by (rule Cons.IH)
    then show ?thesis
      using Cons.prems Start_noop[of rn] CallStart by (simp add: IsStopped_def)
  next
    case (CallStop err)
    have "StartOnce (Stop ln err rn) \<or> stopped (Stop ln err rn)"
      using Cons.prems by (auto simp: StartOnce_Stop stopped_Stop)
    then have "spawned (trace (calls ln (Stop ln err rn) cs)) = spawned (trace (Stop ln err rn))"
      by (rule Cons.IH)
    then show ?thesis using CallStop by (simp add: spawned_Stop)
  qed
qed

text \<open>
  Claim C7. From a node that has been neither started nor stopped, any sequence of \<open>Start\<close>
  and \<open>Stop\<close> calls spawns the receive loop, the transmit loop, the dispatch loop and the
  address-resolution task once, by its first call, when that call is a \<open>Start\<close>, and spawns
  nothing at all otherwise: a \<open>Start\<close> after a \<open>Start\<close> or after a \<open>Stop\<close> spawns
  nothing.
\<close>

theorem Start_spawns_once:
  assumes "\<not> StartOnce rn" and "\<not> StopOnce rn" and "\<not> IsStopped rn"
  shows "spawned (trace (calls ln rn cs)) =
           spawned (trace rn) @
           (case cs of CallStart # cs' \<Rightarrow> [RxLoop, TxLoop, HandleMsgLoop, ResolveNode] | _ \<Rightarrow> [])"
proof (cases cs)
  case Nil
  then show ?thesis by simp
next
  case (Cons c cs')
  show ?thesis
  proof (cases c)
    case CallStart
    have "spawned (trace (calls ln (fst (Start rn)) cs')) = spawned (trace (fst (Start rn)))"
      by (rule calls_no_spawn) (simp add: StartOnce_Start)
    then show ?thesis
      using Cons CallStart Start_fresh[OF assms(1,3)] by (simp add: spawned_append)
  next
    case (CallStop err)
    have "spawned (trace (calls ln (Stop ln err rn) cs')) = spawned (trace (Stop ln err rn))"
      by (rule calls_no_spawn) (simp add: stopped_Stop_first assms(2))
    then show ?thesis
      using Cons CallStop by (simp add: spawned_Stop)
  qed
qed

theorem Start_spawns_once_witness:
  "\<not> StartOnce exampleRemoteNode \<and> \<not> StopOnce exampleRemoteNode
   \<and> \<not> IsStopped exampleRemoteNode
   \<and> spawned (trace (calls exampleLocalNode exampleRemoteNode
                 [CallStart, CallStart, CallStop None, CallStart])) =
       [RxLoop, TxLoop, HandleMsgLoop, ResolveNode]
   \<and> spawned (trace (calls exampleLocalNode exampleRemoteNode
                 [CallStop (Some KeepaliveTimeout), CallStart, CallStart])) = []"
proof -
  have fresh: "\<not> StartOnce exampleRemoteNode" "\<not> StopOnce exampleRemoteNode"
    "\<not> IsStopped exampleRemoteNode"
    by (simp_all add: exampleRemoteNode_def IsStopped_def)
  have tr: "spawned (trace exampleRemoteNode) = []"
    by (simp add: exampleRemoteNode_def)
  show ?thesis
    using fresh tr
      Start_spawns_once[OF fresh, of exampleLocalNode
        "[CallStart, CallStart, CallStop None, CallStart]"]
      Start_spawns_once[OF fresh, of exampleLocalNode
        "[CallStop (Some KeepaliveTimeout), CallStart, CallStart]"]
    by simp
qed

section \<open>Properties of sending\<close>

text \<open>
  Claim C5. When the outbound queue holds \<open>remoteTxMsgChanLen\<close> envelopes, \<open>SendMessage\<close>
  returns the queue-full error and leaves the remote node, its queue included, and the local
  node as they were, for either value of \<open>hasReply\<close>; so do \<open>SendMessageAsync\<close> and
  \<open>SendMessageSync\<close>, the latter whatever its \<open>select\<close> would have received, which it
  does not reach.
\<close>

theorem SendMessage_full:
  assumes "remoteTxMsgChanLen \<le> length (txMsgChan rn)"
  shows "SendMessage ln rn msg hasReply = ((ln, rn), Inl TxMsgChanFull)
     \<and> SendMessageAsync ln rn msg = ((ln, rn), Some TxMsgChanFull)
     \<and> SendMessageSync ln rn msg reply = ((ln, rn), Inl TxMsgChanFull)"
  using assms by (simp add: SendMessage_def SendMessageAsync_def SendMessageSync_def)

theorem SendMessage_full_witness:
  "remoteTxMsgChanLen \<le> length (txMsgChan exampleFullNode)
   \<and> SendMessage exampleLocalNode exampleFullNode exampleMessage True =
       ((exampleLocalNode, exampleFullNode), Inl TxMsgChanFull)
   \<and> SendMessageAsync exampleLocalNode exampleFullNode exampleMessage =
       ((exampleLocalNode, exampleFullNode), Some TxMsgChanFull)
   \<and> SendMessageSync exampleLocalNode exampleFullNode exampleMessage (Some ()) =
       ((exampleLocalNode, exampleFullNode), Inl TxMsgChanFull)"
proof -
  have full: "remoteTxMsgChanLen \<le> length (txMsgChan exampleFullNode)"
    by (simp add: exampleFullNode_def)
  show ?thesis
    using full SendMessage_full[OF full, of exampleLocalNode exampleMessage True "Some ()"]
    by simp
qed

lemma SendMessage_room:
  "length (txMsgChan rn) < remoteTxMsgChanLen \<Longrightarrow>
   SendMessage ln rn msg False = ((ln, rn\<lparr>txMsgChan := txMsgChan rn @ [msg]\<rparr>), Inr None)"
  by (simp add: SendMessage_def)

lemma SendMessageSync_timeout:
  "length (txMsgChan rn) < remoteTxMsgChanLen \<Longrightarrow> MessageId msg \<notin> replyChans ln \<Longrightarrow>
   SendMessageSync ln rn msg None =
     ((ln\<lparr>replyChans := insert (MessageId msg) (replyChans ln)\<rparr>,
       rn\<lparr>txMsgChan := txMsgChan rn @ [msg]\<rparr>), Inl WaitForReplyTimeout)"
  by (simp add: SendMessage_def SendMessageSync_def AllocReplyChan_def)

lemma tx_drains:
  assumes "txMsgChan rn = q" and "\<not> IsStopped rn" and "conn rn = Some c"
  shows "\<exists>rn'. tx marshal ln rn (replicate (length q) (RecvTxMsg None None)) = Inr (ln, rn')
           \<and> txMsgChan rn' = []
           \<and> map_option written (conn rn') =
               Some (written c @ concat (map frame (List.map_filter marshal q)))"
  using assms
proof (induction q arbitrary: rn c)
  case Nil
  then show ?case by simp
next
  case (Cons msg q)
  show ?case
  proof (cases "marshal msg")
    case None
    define rn1 where "rn1 = emit [Log MarshalError] (rn\<lparr>txMsgChan := q\<rparr>)"
    have step: "tx marshal ln rn (replicate (length (msg # q)) (RecvTxMsg None None)) =
        tx marshal ln rn1 (replicate (length q) (RecvTxMsg None None))"
      using Cons.prems None by (simp add: rn1_def)
    have "txMsgChan rn1 = q" "\<not> IsStopped rn1" "conn rn1 = Some c"
      using Cons.prems by (simp_all add: rn1_def emit_def IsStopped_def)
    from Cons.IH[OF this] show ?thesis
      unfolding step using None by simp
  next
    case (Some buf)
    define c1 where "c1 = c\<lparr>written := written c @ frame buf\<rparr>"
    define rn1 where "rn1 = rn\<lparr>txMsgChan := q, conn := Some c1\<rparr>"
    have step: "tx marshal ln rn (replicate (length (msg # q)) (RecvTxMsg None None)) =
        tx marshal ln rn1 (replicate (length q) (RecvTxMsg None None))"
      using Cons.prems Some
      by (simp add: rn1_def c1_def conn_Write_def frame_def Let_def)
    have "txMsgChan rn1 = q" "\<not> IsStopped rn1" "conn rn1 = Some c1"
      using Cons.prems by (simp_all add: rn1_def IsStopped_def)
    from Cons.IH[OF this] show ?thesis
      unfolding step using Some by (simp add: c1_def)
  qed
qed

text \<open>
  Claim C9. With room in the outbound queue and a failing allocation of the reply slot,
  \<open>SendMessage\<close> with \<open>hasReply\<close> set returns the error of the allocation while the
  envelope has been appended to the outbound queue; the transmit loop of a running node,
  when the envelope marshals and the writes succeed, then writes the frame of that envelope
  to the stream after those of the envelopes queued before it.
\<close>

theorem SendMessage_alloc_failure_keeps_envelope:
  assumes "length (txMsgChan rn) < remoteTxMsgChanLen"
    and "AllocReplyChan ln (MessageId msg) = Inl e"
    and "\<not> IsStopped rn" and "conn rn = Some c" and "marshal msg = Some buf"
  shows "SendMessage ln rn msg True = ((ln, rn\<lparr>txMsgChan := txMsgChan rn @ [msg]\<rparr>), Inl e)
     \<and> (\<exists>rn'. tx marshal ln (rn\<lparr>txMsgChan := txMsgChan rn @ [msg]\<rparr>)
                   (replicate (Suc (length (txMsgChan rn))) (RecvTxMsg None None)) = Inr (ln, rn')
            \<and> txMsgChan rn' = []
            \<and> map_option written (conn rn') =
                Some (written c @ concat (map frame (List.map_filter marshal (txMsgChan rn)))
                      @ frame buf))"
proof -
  define rn1 where "rn1 = rn\<lparr>txMsgChan := txMsgChan rn @ [msg]\<rparr>"
  have send: "SendMessage ln rn msg True = ((ln, rn1), Inl e)"
    using assms(1,2) by (simp add: SendMessage_def rn1_def)
  have "txMsgChan rn1 = txMsgChan rn @ [msg]" "\<not> IsStopped rn1" "conn rn1 = Some c"
    using assms(3,4) by (simp_all add: IsStopped_def rn1_def)
  from tx_drains[OF this, of marshal ln] obtain rn' where
    "tx marshal ln rn1 (replicate (length (txMsgChan rn @ [msg])) (RecvTxMsg None None)) =
       Inr (ln, rn')"
    "txMsgChan rn' = []"
    "map_option written (conn rn') =
       Some (written c @ concat (map frame (List.map_filter marshal (txMsgChan rn @ [msg]))))"
    by blast
  moreover have "List.map_filter marshal (txMsgChan rn @ [msg]) =
      List.map_filter marshal (txMsgChan rn) @ [buf]"
    using assms(5) by (simp add: List.map_filter_def)
  ultimately show ?thesis
    using send unfolding rn1_def by simp
qed

theorem SendMessage_alloc_failure_keeps_envelope_witness:
  "length (txMsgChan exampleRemoteNode) < remoteTxMsgChanLen
   \<and> AllocReplyChan exampleLocalNode (MessageId exampleMessage) = Inl ReplyChanExists
   \<and> \<not> IsStopped exampleRemoteNode \<and> conn exampleRemoteNode = Some exampleConn
   \<and> exampleMarshal exampleMessage = Some [7, 1, 2]
   \<and> SendMessage exampleLocalNode exampleRemoteNode exampleMessage True =
       ((exampleLocalNode, exampleRemoteNode\<lparr>txMsgChan := [exampleMessage]\<rparr>),
        Inl ReplyChanExists)
   \<and> (\<exists>rn'. tx exampleMarshal exampleLocalNode
                 (exampleRemoteNode\<lparr>txMsgChan := [exampleMessage]\<rparr>)
                 [RecvTxMsg None None] = Inr (exampleLocalNode, rn')
          \<and> txMsgChan rn' = []
          \<and> map_option written (conn rn') = Some [0, 0, 0, 3, 7, 1, 2])"
proof -
  have h: "length (txMsgChan exampleRemoteNode) < remoteTxMsgChanLen"
    "AllocReplyChan exampleLocalNode (MessageId exampleMessage) = Inl ReplyChanExists"
    "\<not> IsStopped exampleRemoteNode" "conn exampleRemoteNode = Some exampleConn"
    "exampleMarshal exampleMessage = Some [7, 1, 2]"
    by (simp_all add: exampleRemoteNode_def remoteTxMsgChanLen_def AllocReplyChan_def
        exampleLocalNode_def exampleMessage_def IsStopped_def exampleMarshal_def)
  have q: "txMsgChan exampleRemoteNode = []" "written exampleConn = []"
    by (simp_all add: exampleRemoteNode_def exampleConn_def)
  have f: "frame [7, 1, 2] = [0, 0, 0, 3, 7, 1, 2]"
    by (simp add: frame_def PutUint32_def)
  show ?thesis
    using h SendMessage_alloc_failure_keeps_envelope[where marshal = exampleMarshal
        and rn = exampleRemoteNode and ln = exampleLocalNode and msg = exampleMessage, OF h]
    by (simp add: q f)
qed

lemma resolveNode_failures:
  "GetNode ln rn newMsg reply decode = ((ln1, rn1), Inl err) \<Longrightarrow>
     resolveNode sp jn newMsg reply decode ln rn =
       Inr (ln1, Stop ln1 (Some (GetNodeError err)) rn1)"
  "GetNode ln rn newMsg reply decode = ((ln1, rn1), Inr (Some n)) \<Longrightarrow> sp (Addr n) = Inl err \<Longrightarrow>
     resolveNode sp jn newMsg reply decode ln rn =
       Inr (ln1, Stop ln1 (Some (ParseNodeAddrError (Addr n) err)) rn1)"
  "GetNode ln rn newMsg reply decode = ((ln1, rn1), Inr (Some n)) \<Longrightarrow>
   sp (Addr n) = Inr (host, []) \<Longrightarrow>
     resolveNode sp jn newMsg reply decode ln rn =
       Inr (ln1, Stop ln1 (Some NodeAddrPortEmpty) rn1)"
  "GetNode ln rn newMsg reply decode = ((ln1, rn1), Inr (Some n)) \<Longrightarrow>
   sp (Addr n) = Inr ([], port) \<Longrightarrow> port \<noteq> [] \<Longrightarrow> conn rn1 = Some c \<Longrightarrow>
   sp (remoteAddr c) = Inl err \<Longrightarrow>
     resolveNode sp jn newMsg reply decode ln rn =
       Inr (ln1, Stop ln1 (Some (ParseConnRemoteAddrError (remoteAddr c) err)) rn1)"
  by (simp_all add: resolveNode_def)



section \<open>Properties of the frame codec\<close>

lemma Uint32_PutUint32: "Uint32 (PutUint32 w) = Some w"
  unfolding Uint32_def PutUint32_def
  apply simp
  apply (rule bit_word_eqI)
  subgoal for n
    apply (cases "n < 8"; cases "n < 16"; cases "n < 24")
    apply (auto simp: bit_simps)
    done
  done

lemma goInt_of_nat:
  assumes "n < 2 ^ 31"
  shows "goInt a (word_of_nat n) = int n"
proof (cases a)
  case Int32
  have "sint (word_of_nat n :: 32 word) = signed_take_bit 31 (int n)"
    by (simp add: signed_of_nat)
  also have "\<dots> = int n"
    using assms by (intro signed_take_bit_int_eq_self) simp_all
  finally show ?thesis using Int32 by (simp add: goInt_def)
next
  case Int64
  have "uint (word_of_nat n :: 32 word) = int (take_bit 32 n)"
    by (simp add: unsigned_of_nat)
  also have "\<dots> = int n"
    using assms by (simp add: take_bit_nat_eq_self)
  finally show ?thesis using Int64 by (simp add: goInt_def)
qed

lemma handled_append: "handled (xs @ ys) = handled xs @ handled ys"
  by (induction xs rule: handled.induct) simp_all

lemma handled_handleMsgBuf:
  "handled (trace (handleMsgBuf u rn b)) = handled (trace rn) @ [b]"
  by (simp add: handleMsgBuf_def emit_def Let_def handled_append split: option.splits)

lemma length_PutUint32: "length (PutUint32 w) = 4"
  by (simp add: PutUint32_def)

lemma readLen_header:
  assumes "rxBuf_len rn = 0" and "rxBuf_buf rn = []" and "n < 2 ^ 31"
  shows "readLen a rn (PutUint32 (word_of_nat n) @ rest) =
           Inr (rn\<lparr>rxBuf_buf := PutUint32 (word_of_nat n), rxBuf_len := int n\<rparr>, rest, None)"
  using assms
  by (simp add: readLen_def msgLenBytes_def length_PutUint32 Uint32_PutUint32
      goInt_of_nat Let_def)

lemma readLen_frame:
  assumes "rxBuf_len rn = 0" and "rxBuf_buf rn = []" and "length body < 2 ^ 31"
  shows "readLen a rn (frame body @ rest) =
           Inr (rn\<lparr>rxBuf_buf := PutUint32 (word_of_nat (length body)),
                    rxBuf_len := int (length body)\<rparr>, body @ rest, None)"
  using assms
  by (simp add: readLen_def msgLenBytes_def frame_def length_PutUint32 Uint32_PutUint32
      goInt_of_nat Let_def)

lemma rxBuf_after_handle:
  "rxBuf_len (resetRxBuf (handleMsgBuf u rn b)) = 0
   \<and> rxBuf_buf (resetRxBuf (handleMsgBuf u rn b)) = []
   \<and> handled (trace (resetRxBuf (handleMsgBuf u rn b))) = handled (trace rn) @ [b]"
  using handled_handleMsgBuf[of u rn b]
  by (simp add: resetRxBuf_def)

lemma readBuf_body:
  assumes "b \<noteq> []" and "readLen a rn b = Inr (rn1, b1, None)"
  shows "readBuf a u rn b =
     (if int (length b1) = rxBuf_len rn1 then Inr (resetRxBuf (handleMsgBuf u rn1 b1), None)
      else if int (length b1) < rxBuf_len rn1 then
        Inr (rn1\<lparr>rxBuf_buf := rxBuf_buf rn1 @ b1,
                 rxBuf_len := rxBuf_len rn1 - int (length b1)\<rparr>, None)
      else if rxBuf_len rn1 < 0 then Inl SliceBoundsOutOfRange
      else readBuf a u (resetRxBuf (handleMsgBuf u rn1 (take (nat (rxBuf_len rn1)) b1)))
             (drop (nat (rxBuf_len rn1)) b1))"
  using assms by (subst readBuf.simps) (simp add: Let_def)

lemma readBuf_whole_frames:
  assumes "rxBuf_len rn = 0" and "rxBuf_buf rn = []"
    and "\<forall>body \<in> set bodies. length body < 2 ^ 31"
  shows "\<exists>rn'. readBuf a u rn (concat (map frame bodies)) = Inr (rn', None)
           \<and> handled (trace rn') = handled (trace rn) @ bodies
           \<and> rxBuf_len rn' = 0 \<and> rxBuf_buf rn' = []"
  using assms
proof (induction bodies arbitrary: rn)
  case Nil
  then show ?case by (simp add: readBuf.simps)
next
  case (Cons body bodies)
  define rest where "rest = concat (map frame bodies)"
  define rn1 where "rn1 = rn\<lparr>rxBuf_buf := PutUint32 (word_of_nat (length body)),
                  rxBuf_len := int (length body)\<rparr>"
  define rn2 where "rn2 = resetRxBuf (handleMsgBuf u rn1 body)"
  have rl: "readLen a rn (frame body @ rest) = Inr (rn1, body @ rest, None)"
    unfolding rn1_def using Cons.prems by (intro readLen_frame) simp_all
  have ne: "frame body @ rest \<noteq> []"
    by (simp add: frame_def PutUint32_def)
  have len1: "rxBuf_len rn1 = int (length body)"
    by (simp add: rn1_def)
  have h2: "rxBuf_len rn2 = 0" "rxBuf_buf rn2 = []"
    "handled (trace rn2) = handled (trace rn) @ [body]"
    using rxBuf_after_handle[of u rn1 body] by (simp_all add: rn2_def rn1_def)
  have unfold: "readBuf a u rn (frame body @ rest) =
      (if rest = [] then Inr (rn2, None) else readBuf a u rn2 rest)"
    unfolding readBuf_body[OF ne rl] by (simp add: len1 rn2_def)
  have "\<exists>rn'. readBuf a u rn (frame body @ rest) = Inr (rn', None)
           \<and> handled (trace rn') = handled (trace rn) @ body # bodies
           \<and> rxBuf_len rn' = 0 \<and> rxBuf_buf rn' = []"
  proof (cases "rest = []")
    case True
    then have "bodies = []"
      unfolding rest_def by (cases bodies) (simp_all add: frame_def PutUint32_def)
    then show ?thesis using unfold True h2 by simp
  next
    case False
    have "\<exists>rn'. readBuf a u rn2 (concat (map frame bodies)) = Inr (rn', None)
           \<and> handled (trace rn') = handled (trace rn2) @ bodies
           \<and> rxBuf_len rn' = 0 \<and> rxBuf_buf rn' = []"
      using h2 Cons.prems by (intro Cons.IH) simp_all
    then obtain rn' where "readBuf a u rn2 rest = Inr (rn', None)"
      "handled (trace rn') = handled (trace rn2) @ bodies"
      "rxBuf_len rn' = 0" "rxBuf_buf rn' = []"
      unfolding rest_def by blast
    then show ?thesis using unfold False h2 by simp
  qed
  then show ?case by (simp add: rest_def)
qed


lemma readBuf_split_body:
  assumes "rxBuf_len rn = 0" and "rxBuf_buf rn = []"
    and "b2 \<noteq> []" and "length (b1 @ b2) < 2 ^ 31"
  shows "\<exists>rn1 rn2.
           readBuf a u rn (PutUint32 (word_of_nat (length (b1 @ b2))) @ b1) = Inr (rn1, None)
         \<and> readBuf a u rn1 b2 = Inr (rn2, None)
         \<and> handled (trace rn2) = handled (trace rn) @ [b2]"
proof -
  define hdr where "hdr = PutUint32 (word_of_nat (length (b1 @ b2)))"
  define rn0 where "rn0 = rn\<lparr>rxBuf_buf := hdr, rxBuf_len := int (length (b1 @ b2))\<rparr>"
  define rn1 where "rn1 = rn0\<lparr>rxBuf_buf := rxBuf_buf rn0 @ b1, rxBuf_len := int (length b2)\<rparr>"
  have ne: "hdr @ b1 \<noteq> []"
    by (simp add: hdr_def PutUint32_def)
  have rl: "readLen a rn (hdr @ b1) = Inr (rn0, b1, None)"
    unfolding hdr_def rn0_def using assms(1,2,4) by (intro readLen_header)
  have len0: "rxBuf_len rn0 = int (length b1) + int (length b2)"
    by (simp add: rn0_def)
  have first: "readBuf a u rn (hdr @ b1) = Inr (rn1, None)"
    unfolding readBuf_body[OF ne rl] using assms(3) by (simp add: len0 rn1_def)
  have len1: "rxBuf_len rn1 = int (length b2)" "rxBuf_len rn1 \<noteq> 0"
    using assms(3) by (simp_all add: rn1_def)
  have rl2: "readLen a rn1 b2 = Inr (rn1, b2, None)"
    using len1 by (simp add: readLen_def)
  have second: "readBuf a u rn1 b2 = Inr (resetRxBuf (handleMsgBuf u rn1 b2), None)"
    unfolding readBuf_body[OF assms(3) rl2] by (simp add: len1)
  have "handled (trace (resetRxBuf (handleMsgBuf u rn1 b2))) = handled (trace rn1) @ [b2]"
    using rxBuf_after_handle[of u rn1 b2] by simp
  moreover have "trace rn1 = trace rn"
    by (simp add: rn1_def rn0_def)
  ultimately show ?thesis
    using first second unfolding hdr_def by auto
qed

lemma readBuf_negative_length:
  assumes "rxBuf_len rn = 0" and "rxBuf_buf rn = []" and "4 \<le> length b"
    and "Uint32 b = Some w" and "sint w < 0"
  shows "readBuf Int32 u rn b =
           Inr (rn\<lparr>rxBuf_buf := take 4 b, rxBuf_len := sint w\<rparr>,
                Some (MessageLengthOverflow (sint w)))"
proof -
  have "Uint32 (take 4 b) = Some w"
    using assms(3,4) by (simp add: Uint32_def)
  moreover have "b \<noteq> []" using assms(3) by auto
  ultimately show ?thesis
    using assms
    by (subst readBuf.simps) (simp add: readLen_def msgLenBytes_def goInt_def Let_def)
qed

text \<open>
  Claim C1, at a frame whose body is split over two reads. The two reads concatenate to the
  frame of the two-byte body \<open>[0x61, 0x62]\<close>; \<open>handleMsgBuf\<close> is called once, with the
  second read \<open>[0x62]\<close> alone, not with the body: the bytes kept in \<open>rxBuf.buf\<close> by the
  first read are dropped. Lemma \<open>readBuf_split_body\<close> above shows the same for every
  split, and lemma \<open>readBuf_whole_frames\<close> that frames arriving whole in one read are
  delivered complete and in order.
\<close>

theorem readBuf_split_body_delivers_tail:
  "concat [[0, 0, 0, 2, 0x61], [0x62]] = frame [0x61, 0x62]
   \<and> (\<exists>rn'. rx a unmarshal exampleLocalNode exampleRemoteNode
                 [([0, 0, 0, 2, 0x61], None), ([0x62], None)] = Inr rn'
          \<and> handled (trace rn') = [[0x62]]
          \<and> rxBuf_buf rn' = [] \<and> rxBuf_len rn' = 0)"
proof -
  have "frame [0x61, 0x62] = [0, 0, 0, 2, 0x61, 0x62]"
    by (simp add: frame_def PutUint32_def)
  moreover have "\<exists>rn'. rx a unmarshal exampleLocalNode exampleRemoteNode
                 [([0, 0, 0, 2, 0x61], None), ([0x62], None)] = Inr rn'
          \<and> handled (trace rn') = [[0x62]]
          \<and> rxBuf_buf rn' = [] \<and> rxBuf_len rn' = 0"
    by (cases a; cases "unmarshal [0x62]")
      (simp_all add: exampleRemoteNode_def IsStopped_def readBuf.simps readLen_def Let_def
        msgLenBytes_def Uint32_def goInt_def handleMsgBuf_def emit_def resetRxBuf_def)
  ultimately show ?thesis by simp
qed

lemma readBuf_nine_one_rest:
  "\<exists>rn'. rx a (\<lambda>b. None) exampleLocalNode exampleRemoteNode
          [([0, 0, 0, 10, 1, 2, 3, 4, 5], None), ([6], None), ([7, 8, 9, 10], None)] = Inr rn'
        \<and> handled (trace rn') = [[7, 8, 9, 10]]"
  by (cases a)
    (simp_all add: exampleRemoteNode_def IsStopped_def readBuf.simps readLen_def Let_def
      msgLenBytes_def Uint32_def goInt_def handleMsgBuf_def emit_def resetRxBuf_def)

text \<open>
  Claim C2, at the length prefix \<open>0x80000000\<close>. Where \<open>int\<close> has 32 bits \<open>readBuf\<close>
  returns its overflow error, \<open>rx\<close> logs it and goes on: the node is not stopped, \<open>Stop\<close>
  has not run and the stream is open. Where \<open>int\<close> has 64 bits the length is positive, no
  error arises and the codec waits for that many bytes.
\<close>

theorem rx_negative_length_not_stopped:
  "(\<exists>rn'. rx Int32 unmarshal exampleLocalNode exampleRemoteNode [([0x80, 0, 0, 0], None)] = Inr rn'
      \<and> \<not> IsStopped rn' \<and> \<not> StopOnce rn' \<and> conn rn' = Some exampleConn
      \<and> trace rn' = [Log (ReadBufferError (MessageLengthOverflow (- 2147483648)))]
      \<and> rxBuf_len rn' = - 2147483648)
   \<and> (\<exists>rn'. rx Int64 unmarshal exampleLocalNode exampleRemoteNode [([0x80, 0, 0, 0], None)] = Inr rn'
      \<and> \<not> IsStopped rn' \<and> \<not> StopOnce rn' \<and> conn rn' = Some exampleConn
      \<and> trace rn' = [] \<and> rxBuf_len rn' = 2147483648)"
  by (simp add: exampleRemoteNode_def IsStopped_def readBuf.simps readLen_def Let_def
      msgLenBytes_def Uint32_def goInt_def emit_def)

lemma rx_negative_length_then_panic:
  "rx Int32 unmarshal exampleLocalNode exampleRemoteNode
     [([0x80, 0, 0, 0], None), ([1], None)] = Inl SliceBoundsOutOfRange"
  by (simp add: exampleRemoteNode_def IsStopped_def readBuf.simps readLen_def Let_def
      msgLenBytes_def Uint32_def goInt_def emit_def)

end
